theory Spec2Isabelle
  imports Main "HOL-Library.Sublist"
begin

section \<open>Go library functions the program calls\<close>

text \<open>
  Go strings are byte sequences; they are modelled as \<open>string\<close> (a list of 8-bit
  characters). A Go \<open>error\<close> value is modelled by its message, \<open>nil\<close> by \<open>None\<close>.
  The library functions below follow the documented behaviour of the Go standard library
  on a Unix host (the program shells out to systemctl).
\<close>

type_synonym error = string

subsection \<open>Package strings\<close>

definition HasPrefix :: "string \<Rightarrow> string \<Rightarrow> bool" where
  "HasPrefix s pre = prefix pre s"

fun Contains :: "string \<Rightarrow> string \<Rightarrow> bool" where
  "Contains [] substr = (substr = [])"
| "Contains (c # cs) substr = (prefix substr (c # cs) \<or> Contains cs substr)"

fun strings_Join :: "string list \<Rightarrow> string \<Rightarrow> string" where
  "strings_Join [] sep = []"
| "strings_Join [e] sep = e"
| "strings_Join (e # es) sep = e @ sep @ strings_Join es sep"

text \<open>
  \<open>unicode.IsSpace\<close> holds of U+0009..U+000D, U+0020, U+0085, U+00A0, U+1680,
  U+2000..U+200A, U+2028, U+2029, U+202F, U+205F and U+3000. These are their UTF-8
  encodings. Each encoding starts with an ASCII byte or a UTF-8 lead byte, so a decoder
  that walks the string rune by rune (invalid bytes one at a time) reads a white-space
  rune exactly where one of these byte sequences starts.
\<close>

definition space_encodings :: "string list" where
  "space_encodings =
    [[CHR 0x09], [CHR 0x0A], [CHR 0x0B], [CHR 0x0C], [CHR 0x0D], [CHR 0x20],
     [CHR 0xC2, CHR 0x85], [CHR 0xC2, CHR 0xA0],
     [CHR 0xE1, CHR 0x9A, CHR 0x80],
     [CHR 0xE2, CHR 0x80, CHR 0x80], [CHR 0xE2, CHR 0x80, CHR 0x81],
     [CHR 0xE2, CHR 0x80, CHR 0x82], [CHR 0xE2, CHR 0x80, CHR 0x83],
     [CHR 0xE2, CHR 0x80, CHR 0x84], [CHR 0xE2, CHR 0x80, CHR 0x85],
     [CHR 0xE2, CHR 0x80, CHR 0x86], [CHR 0xE2, CHR 0x80, CHR 0x87],
     [CHR 0xE2, CHR 0x80, CHR 0x88], [CHR 0xE2, CHR 0x80, CHR 0x89],
     [CHR 0xE2, CHR 0x80, CHR 0x8A],
     [CHR 0xE2, CHR 0x80, CHR 0xA8], [CHR 0xE2, CHR 0x80, CHR 0xA9],
     [CHR 0xE2, CHR 0x80, CHR 0xAF],
     [CHR 0xE2, CHR 0x81, CHR 0x9F],
     [CHR 0xE3, CHR 0x80, CHR 0x80]]"

text \<open>The number of bytes of the white-space rune a string starts (ends) with; 0 if none.\<close>

definition space_width :: "string \<Rightarrow> nat" where
  "space_width s =
     (case find (\<lambda>e. prefix e s) space_encodings of None \<Rightarrow> 0 | Some e \<Rightarrow> length e)"

definition space_width_end :: "string \<Rightarrow> nat" where
  "space_width_end s =
     (case find (\<lambda>e. suffix e s) space_encodings of None \<Rightarrow> 0 | Some e \<Rightarrow> length e)"

lemma space_width_le: "space_width s \<le> length s"
  by (auto simp: space_width_def prefix_def split: option.splits dest!: find_Some_iff[THEN iffD1])

lemma space_width_end_le: "space_width_end s \<le> length s"
  by (auto simp: space_width_end_def suffix_def split: option.splits
      dest!: find_Some_iff[THEN iffD1])

function TrimLeft :: "string \<Rightarrow> string" where
  "TrimLeft s = (if space_width s = 0 then s else TrimLeft (drop (space_width s) s))"
  by pat_completeness auto
termination
proof (relation "measure length")
  show "wf (measure length)" by simp
next
  fix s :: string
  assume "space_width s \<noteq> 0"
  moreover have "space_width s \<le> length s" by (rule space_width_le)
  ultimately show "(drop (space_width s) s, s) \<in> measure length" by simp
qed

function TrimRight :: "string \<Rightarrow> string" where
  "TrimRight s =
     (if space_width_end s = 0 then s else TrimRight (take (length s - space_width_end s) s))"
  by pat_completeness auto
termination
proof (relation "measure length")
  show "wf (measure length)" by simp
next
  fix s :: string
  assume "space_width_end s \<noteq> 0"
  moreover have "space_width_end s \<le> length s" by (rule space_width_end_le)
  ultimately show "(take (length s - space_width_end s) s, s) \<in> measure length" by simp
qed

definition TrimSpace :: "string \<Rightarrow> string" where
  "TrimSpace s = TrimRight (TrimLeft s)"

text \<open>The longest prefix of a string in which no white-space rune starts.\<close>

fun take_field :: "string \<Rightarrow> string" where
  "take_field [] = []"
| "take_field (c # cs) = (if 0 < space_width (c # cs) then [] else c # take_field cs)"

lemma take_field_pos: "s \<noteq> [] \<Longrightarrow> space_width s = 0 \<Longrightarrow> 0 < length (take_field s)"
  by (cases s) auto

text \<open>\<open>strings.Fields\<close>: the maximal runs of bytes between white-space runes.\<close>

function Fields :: "string \<Rightarrow> string list" where
  "Fields s =
     (if s = [] then []
      else if 0 < space_width s then Fields (drop (space_width s) s)
      else take_field s # Fields (drop (length (take_field s)) s))"
  by pat_completeness auto
termination
proof (relation "measure length")
  show "wf (measure length)" by simp
next
  fix s :: string
  assume "s \<noteq> []" "0 < space_width s"
  then show "(drop (space_width s) s, s) \<in> measure length" by simp
next
  fix s :: string
  assume "s \<noteq> []" "\<not> 0 < space_width s"
  then have "0 < length (take_field s)" using take_field_pos [of s] by simp
  with \<open>s \<noteq> []\<close> show "(drop (length (take_field s)) s, s) \<in> measure length" by simp
qed

declare TrimLeft.simps [simp del] TrimRight.simps [simp del] Fields.simps [simp del]

text \<open>\<open>fmt.Sprintf("%d", n)\<close>: the decimal digits, with a minus sign below zero.\<close>

fun nat_digits :: "nat \<Rightarrow> string" where
  "nat_digits n =
     (if n < 10 then [''0123456789'' ! n]
      else nat_digits (n div 10) @ [''0123456789'' ! (n mod 10)])"

declare nat_digits.simps [simp del]

definition Itoa :: "int \<Rightarrow> string" where
  "Itoa n = (if n < 0 then CHR ''-'' # nat_digits (nat (- n)) else nat_digits (nat n))"

subsection \<open>Package bufio: a Scanner splitting with ScanLines\<close>

text \<open>
  The pieces of a text between newlines; a last piece with no newline after it counts
  when it is not empty.
\<close>

fun lines_from :: "string \<Rightarrow> string \<Rightarrow> string list" where
  "lines_from cur [] = (if cur = [] then [] else [cur])"
| "lines_from cur (c # cs) =
     (if c = CHR 0x0A then cur # lines_from [] cs else lines_from (cur @ [c]) cs)"

definition dropCR :: "string \<Rightarrow> string" where
  "dropCR data = (if data \<noteq> [] \<and> last data = CHR 0x0D then butlast data else data)"

definition MaxScanTokenSize :: nat where
  "MaxScanTokenSize = 64 * 1024"

text \<open>
  The tokens \<open>scanner.Scan()\<close> yields until it returns false: every line with one
  trailing carriage return dropped. A line that does not fit the scanner's buffer
  (\<open>MaxScanTokenSize\<close> bytes, the newline included) makes \<open>Scan\<close> return false, and
  the loop over the scanner ends there.
\<close>

definition ScanLines :: "string \<Rightarrow> string list" where
  "ScanLines output =
     map dropCR (takeWhile (\<lambda>l. length l < MaxScanTokenSize) (lines_from [] output))"

subsection \<open>Packages path/filepath and os\<close>

text \<open>The pieces of a string between occurrences of a separator byte.\<close>

fun split_from :: "char \<Rightarrow> string \<Rightarrow> string \<Rightarrow> string list" where
  "split_from sep cur [] = [cur]"
| "split_from sep cur (c # cs) =
     (if c = sep then cur # split_from sep [] cs else split_from sep (cur @ [c]) cs)"

text \<open>
  One step of \<open>filepath.Clean\<close>: \<open>out\<close> holds the path elements written so far.
  An empty element and \<open>.\<close> are dropped; \<open>..\<close> removes the last element when there is
  one to remove, is kept in a relative path, and is dropped at the root.
\<close>

definition clean_elem :: "bool \<Rightarrow> string list \<Rightarrow> string \<Rightarrow> string list" where
  "clean_elem rooted out e =
     (if e = [] \<or> e = ''.'' then out
      else if e = ''..'' then
        (if out \<noteq> [] \<and> last out \<noteq> ''..'' then butlast out
         else if \<not> rooted then out @ [''..'']
         else out)
      else out @ [e])"

definition Clean :: "string \<Rightarrow> string" where
  "Clean path =
     (if path = [] then ''.''
      else
        let rooted = (hd path = CHR ''/'');
            out = foldl (clean_elem rooted) [] (split_from CHR ''/'' [] path);
            s = (if rooted then ''/'' else []) @ strings_Join out ''/''
        in if s = [] then ''.'' else s)"

text \<open>\<open>filepath.Join\<close>: leading empty elements are ignored, the rest joined and cleaned.\<close>

definition Join :: "string list \<Rightarrow> string" where
  "Join elem =
     (case dropWhile (\<lambda>e. e = []) elem of
        [] \<Rightarrow> []
      | e # es \<Rightarrow> Clean (strings_Join (e # es) ''/''))"

definition IsAbs :: "string \<Rightarrow> bool" where
  "IsAbs path = HasPrefix path ''/''"

text \<open>
  What the program reads from its environment: the value of \<open>$HOME\<close> (empty when
  unset) and the result of \<open>os.Getwd\<close>.
\<close>

record os_env =
  env_HOME :: string
  env_Getwd :: "error + string"

definition UserHomeDir :: "os_env \<Rightarrow> string \<times> error option" where
  "UserHomeDir env =
     (if env_HOME env \<noteq> [] then (env_HOME env, None)
      else ([], Some ''$HOME is not defined''))"

definition Abs :: "os_env \<Rightarrow> string \<Rightarrow> string \<times> error option" where
  "Abs env path =
     (if IsAbs path then (Clean path, None)
      else (case env_Getwd env of
              Inl err \<Rightarrow> ([], Some err)
            | Inr wd \<Rightarrow> (Join [wd, path], None)))"

section \<open>Building and rendering a unit file (newService.go)\<close>

text \<open>
  The anonymous structs of \<open>SystemdServiceConfig\<close>. Package system names its middle
  field \<open>Service\<close>, package systemd \<open>SystemdService\<close>; both have the same fields.
\<close>

record UnitSection =
  Description :: string

record ServiceSection =
  Type :: string
  User :: string
  Group :: string
  LimitNOFILE :: int
  Restart :: string
  RestartSec :: string
  StandardOutput :: string
  StandardError :: string
  ExecStart :: string

record InstallSection =
  WantedBy :: string

text \<open>\<open>system.SystemdServiceConfig\<close>\<close>

record SystemdServiceConfig =
  cfg_Unit :: UnitSection
  cfg_Service :: ServiceSection
  cfg_Install :: InstallSection

text \<open>\<open>systemd.SystemdServiceConfig\<close>, which has a \<open>Path\<close> field as well\<close>

record sd_SystemdServiceConfig =
  sd_Unit :: UnitSection
  sd_SystemdService :: ServiceSection
  sd_Install :: InstallSection
  sd_Path :: string

record ConfigOptions =
  opt_Type :: string
  opt_User :: string
  opt_Group :: string
  opt_LimitNOFILE :: int
  opt_Restart :: string
  opt_RestartSec :: string

text \<open>The options substituted for \<open>opts == nil\<close>.\<close>

definition default_options :: ConfigOptions where
  "default_options =
     \<lparr>opt_Type = ''simple'', opt_User = ''root'', opt_Group = ''root'',
      opt_LimitNOFILE = 4096, opt_Restart = ''always'', opt_RestartSec = ''5s''\<rparr>"

text \<open>
  The base directory after the two steps both builders take on it: the home directory
  replaces a leading \<open>~/\<close> when it resolves, and the result is made absolute; the error
  of \<open>filepath.Abs\<close> is discarded and its (empty) path kept.
\<close>

definition resolve_baseDir :: "os_env \<Rightarrow> string \<Rightarrow> string" where
  "resolve_baseDir env baseDir =
     (let baseDir =
            (if HasPrefix baseDir ''~/'' then
               (case UserHomeDir env of
                  (homeDir, None) \<Rightarrow> Join [homeDir, drop 2 baseDir]
                | (homeDir, Some err) \<Rightarrow> baseDir)
             else baseDir)
      in fst (Abs env baseDir))"

definition NewServiceConfig ::
  "os_env \<Rightarrow> string \<Rightarrow> string \<Rightarrow> string \<Rightarrow> ConfigOptions option \<Rightarrow> SystemdServiceConfig" where
  "NewServiceConfig env serviceName baseDir execCommand opts =
     (let opts = (case opts of None \<Rightarrow> default_options | Some given \<Rightarrow> given);
          baseDir = resolve_baseDir env baseDir;
          logPath = Join [baseDir, ''logs'', ''service.log''];
          execPath = Join [baseDir, execCommand]
      in \<lparr>cfg_Unit = \<lparr>Description = serviceName @ '' service''\<rparr>,
          cfg_Service =
            \<lparr>Type = opt_Type opts, User = opt_User opts, Group = opt_Group opts,
             LimitNOFILE = opt_LimitNOFILE opts, Restart = opt_Restart opts,
             RestartSec = opt_RestartSec opts,
             StandardOutput = ''append:'' @ logPath,
             StandardError = ''append:'' @ logPath,
             ExecStart = execPath\<rparr>,
          cfg_Install = \<lparr>WantedBy = ''multi-user.target''\<rparr>\<rparr>)"

definition NewSystemdServiceConfig ::
  "os_env \<Rightarrow> string \<Rightarrow> string \<Rightarrow> string \<Rightarrow> ConfigOptions option \<Rightarrow> sd_SystemdServiceConfig" where
  "NewSystemdServiceConfig env serviceName baseDir execCommand opts =
     (let opts = (case opts of None \<Rightarrow> default_options | Some given \<Rightarrow> given);
          baseDir = resolve_baseDir env baseDir;
          logPath = Join [baseDir, ''logs'', ''service.log''];
          execPath = Join [baseDir, execCommand];
          savePath = Join [''/lib/systemd/system'', serviceName @ ''.service'']
      in \<lparr>sd_Unit = \<lparr>Description = serviceName @ '' service''\<rparr>,
          sd_SystemdService =
            \<lparr>Type = opt_Type opts, User = opt_User opts, Group = opt_Group opts,
             LimitNOFILE = opt_LimitNOFILE opts, Restart = opt_Restart opts,
             RestartSec = opt_RestartSec opts,
             StandardOutput = ''append:'' @ logPath,
             StandardError = ''append:'' @ logPath,
             ExecStart = execPath\<rparr>,
          sd_Install = \<lparr>WantedBy = ''multi-user.target''\<rparr>,
          sd_Path = savePath\<rparr>)"

text \<open>\<open>ToString\<close> of package system.\<close>

definition ToString :: "SystemdServiceConfig \<Rightarrow> string" where
  "ToString c =
     ''[Unit]\<newline>'' @
     (''Description='' @ Description (cfg_Unit c) @ ''\<newline>\<newline>'') @
     ''[Service]\<newline>'' @
     (''Type='' @ Type (cfg_Service c) @ ''\<newline>'') @
     (''User='' @ User (cfg_Service c) @ ''\<newline>'') @
     (''Group='' @ Group (cfg_Service c) @ ''\<newline>'') @
     (''LimitNOFILE='' @ Itoa (LimitNOFILE (cfg_Service c)) @ ''\<newline>'') @
     (''Restart='' @ Restart (cfg_Service c) @ ''\<newline>'') @
     (''RestartSec='' @ RestartSec (cfg_Service c) @ ''\<newline>'') @
     (''StandardOutput='' @ StandardOutput (cfg_Service c) @ ''\<newline>'') @
     (''StandardError='' @ StandardError (cfg_Service c) @ ''\<newline>'') @
     (''ExecStart='' @ ExecStart (cfg_Service c) @ ''\<newline>\<newline>'') @
     ''[Install]\<newline>'' @
     (''WantedBy='' @ WantedBy (cfg_Install c) @ ''\<newline>'')"

text \<open>\<open>ToString\<close> of package systemd; its error is always \<open>nil\<close>.\<close>

definition sd_ToString :: "sd_SystemdServiceConfig \<Rightarrow> string \<times> error option" where
  "sd_ToString c =
    (''[Unit]\<newline>'' @
     (''Description='' @ Description (sd_Unit c) @ ''\<newline>\<newline>'') @
     ''[SystemdService]\<newline>'' @
     (''Type='' @ Type (sd_SystemdService c) @ ''\<newline>'') @
     (''User='' @ User (sd_SystemdService c) @ ''\<newline>'') @
     (''Group='' @ Group (sd_SystemdService c) @ ''\<newline>'') @
     (''LimitNOFILE='' @ Itoa (LimitNOFILE (sd_SystemdService c)) @ ''\<newline>'') @
     (''Restart='' @ Restart (sd_SystemdService c) @ ''\<newline>'') @
     (''RestartSec='' @ RestartSec (sd_SystemdService c) @ ''\<newline>'') @
     (''StandardOutput='' @ StandardOutput (sd_SystemdService c) @ ''\<newline>'') @
     (''StandardError='' @ StandardError (sd_SystemdService c) @ ''\<newline>'') @
     (''ExecStart='' @ ExecStart (sd_SystemdService c) @ ''\<newline>\<newline>'') @
     ''[Install]\<newline>'' @
     (''WantedBy='' @ WantedBy (sd_Install c) @ ''\<newline>''),
     None)"

section \<open>Listing the active services (services.go)\<close>

text \<open>
  Packages system and systemd hold the same \<open>Service\<close> struct and the same function
  \<open>GetSystemDServices\<close>, line for line; one model stands for both.
\<close>

record Service =
  Name :: string
  Unit :: string
  ActiveState :: string
  SubState :: string
  LoadState :: string
  Path :: string

text \<open>
  The body of \<open>for scanner.Scan()\<close>, over the lines the scanner yields; \<open>services\<close>
  is the slice appended to. The reads \<open>fields ! 0\<close> to \<open>fields ! 4\<close> are in range
  where they stand, as in the source.
\<close>

fun scan_loop :: "string \<Rightarrow> string list \<Rightarrow> Service list \<Rightarrow> Service list" where
  "scan_loop partialName [] services = services"
| "scan_loop partialName (line # rest) services =
     (if HasPrefix line ''UNIT'' then scan_loop partialName rest services
      else
        let fields = Fields line in
        if length fields < 3 then scan_loop partialName rest services
        else if partialName \<noteq> [] \<and> \<not> Contains (fields ! 0) partialName
          then scan_loop partialName rest services
        else
          let service = \<lparr>Name = fields ! 0, Unit = fields ! 1, ActiveState = fields ! 2,
                         SubState = [], LoadState = [], Path = []\<rparr>;
              service = (if length fields > 3 then service\<lparr>SubState := fields ! 3\<rparr>
                         else service);
              service = (if length fields > 4 then service\<lparr>LoadState := fields ! 4\<rparr>
                         else service);
              service = service\<lparr>Path := ''/etc/systemd/system/'' @ Name service @ ''.service''\<rparr>
          in scan_loop partialName rest (services @ [service]))"

text \<open>
  \<open>GetSystemDServices\<close>, given what \<open>cmd.CombinedOutput()\<close> returned. \<open>log.Fatalf\<close>
  ends the process: the result is then \<open>Inl\<close> of the logged message.
\<close>

definition GetSystemDServices :: "string \<times> error option \<Rightarrow> string \<Rightarrow> string + Service list" where
  "GetSystemDServices combined partialName =
     (case combined of
        (output, Some err) \<Rightarrow> Inl (''Could not run systemctl: '' @ err)
      | (output, None) \<Rightarrow> Inr (scan_loop partialName (ScanLines output) []))"

section \<open>The HTTP handlers (main.go)\<close>

type_synonym response = "nat \<times> string"

definition StatusOK :: nat where
  "StatusOK = 200"

definition StatusBadRequest :: nat where
  "StatusBadRequest = 400"

text \<open>A request's form, as pairs of a field and its value; \<open>FormValue\<close> of an absent field is empty.\<close>

type_synonym form = "(string \<times> string) list"

definition FormValue :: "form \<Rightarrow> string \<Rightarrow> string" where
  "FormValue req field = (case map_of req field of None \<Rightarrow> [] | Some v \<Rightarrow> v)"

text \<open>The configuration both \<open>GET /new\<close> and \<open>POST /service/new\<close> render.\<close>

definition example_options :: ConfigOptions where
  "example_options =
     \<lparr>opt_Type = [], opt_User = ''pocketbase'', opt_Group = ''pocketbase'',
      opt_LimitNOFILE = 0, opt_Restart = [], opt_RestartSec = []\<rparr>"

definition example_config :: "os_env \<Rightarrow> sd_SystemdServiceConfig" where
  "example_config env =
     NewSystemdServiceConfig env ''pocketbase'' ''~/pb'' ''pocketbase serve yourdomain.com''
       (Some example_options)"

text \<open>
  The handler of \<open>POST /service/new\<close>. It passes \<open>config.ToString()\<close> to \<open>c.String\<close>
  as the body: the string that \<open>ToString\<close> returns.
\<close>

definition post_service_new :: "os_env \<Rightarrow> form \<Rightarrow> response" where
  "post_service_new env req =
     (let name = FormValue req ''name'' in
      if name = [] then (StatusBadRequest, ''name is required'')
      else
        let path = FormValue req ''path'' in
        if path = [] then (StatusBadRequest, ''path is required'')
        else
          let path = TrimSpace path in
          if length path \<ge> 2 \<and> take 2 path \<noteq> ''~/''
            then (StatusBadRequest, ''path must be absolute, try ~/path/to/service'')
          else
            let config = example_config env
            in (StatusOK, fst (sd_ToString config)))"

text \<open>The handler of \<open>GET /new\<close>.\<close>

definition get_new :: "os_env \<Rightarrow> response" where
  "get_new env = (StatusOK, fst (sd_ToString (example_config env)))"

section \<open>The specification's notions\<close>

subsection \<open>Parsed records\<close>

text \<open>
  The records the specification calls parsed: a line that starts with the header token
  or has fewer than three fields gives none; any other line gives the record of its
  first five fields, with the path derived from the name.
\<close>

definition spec_parse_line :: "string \<Rightarrow> Service option" where
  "spec_parse_line line =
     (if HasPrefix line ''UNIT'' then None
      else
        let fields = Fields line in
        if length fields < 3 then None
        else Some \<lparr>Name = fields ! 0, Unit = fields ! 1, ActiveState = fields ! 2,
                   SubState = (if 3 < length fields then fields ! 3 else []),
                   LoadState = (if 4 < length fields then fields ! 4 else []),
                   Path = ''/etc/systemd/system/'' @ fields ! 0 @ ''.service''\<rparr>)"

definition spec_parsed_records :: "string \<Rightarrow> Service list" where
  "spec_parsed_records output = List.map_filter spec_parse_line (ScanLines output)"

subsection \<open>String fields of a configuration\<close>

text \<open>
  The string fields of a configuration, in the order the specification lists them, and
  the invariant it states of them: none is empty.
\<close>

definition section_strings :: "UnitSection \<Rightarrow> ServiceSection \<Rightarrow> InstallSection \<Rightarrow> string list" where
  "section_strings u s i =
     [Description u, Type s, User s, Group s, Restart s, RestartSec s,
      StandardOutput s, StandardError s, ExecStart s, WantedBy i]"

definition strings_nonempty :: "UnitSection \<Rightarrow> ServiceSection \<Rightarrow> InstallSection \<Rightarrow> bool" where
  "strings_nonempty u s i = ([] \<notin> set (section_strings u s i))"

text \<open>An absolute path in normal form, the root apart.\<close>

definition normal_dir :: "string \<Rightarrow> bool" where
  "normal_dir p = (IsAbs p \<and> Clean p = p \<and> p \<noteq> ''/'')"

text \<open>A path element that \<open>filepath.Clean\<close> keeps as it is.\<close>

definition plain_elem :: "string \<Rightarrow> bool" where
  "plain_elem e = (e \<noteq> [] \<and> e \<noteq> ''.'' \<and> e \<noteq> ''..'' \<and> CHR ''/'' \<notin> set e)"

subsection \<open>The structure of a unit file\<close>

text \<open>
  A unit file read back as the specification describes it: the lines are grouped into
  blocks at every blank line, so that two sections with exactly one blank line between
  them are two non-empty blocks; a block is a header line followed by entries, and the
  key of an entry is what stands before its first \<open>=\<close>. The expected structure is three
  sections, each key once, in the order of the specification.
\<close>

fun blocks_from :: "string list \<Rightarrow> string list \<Rightarrow> string list list" where
  "blocks_from cur [] = [cur]"
| "blocks_from cur (l # ls) =
     (if l = [] then cur # blocks_from [] ls else blocks_from (cur @ [l]) ls)"

definition key_of :: "string \<Rightarrow> string" where
  "key_of l = takeWhile (\<lambda>c. c \<noteq> CHR ''='') l"

definition section_of :: "string list \<Rightarrow> string \<times> string list" where
  "section_of block = (case block of [] \<Rightarrow> ([], []) | header # entries \<Rightarrow> (header, map key_of entries))"

definition unit_structure :: "string \<Rightarrow> (string \<times> string list) list" where
  "unit_structure txt = map section_of (blocks_from [] (lines_from [] txt))"

definition expected_structure :: "string \<Rightarrow> (string \<times> string list) list" where
  "expected_structure service_header =
     [(''[Unit]'', [''Description'']),
      (service_header,
       [''Type'', ''User'', ''Group'', ''LimitNOFILE'', ''Restart'', ''RestartSec'',
        ''StandardOutput'', ''StandardError'', ''ExecStart'']),
      (''[Install]'', [''WantedBy''])]"

text \<open>No string field holds a newline.\<close>

definition single_line_values :: "UnitSection \<Rightarrow> ServiceSection \<Rightarrow> InstallSection \<Rightarrow> bool" where
  "single_line_values u s i = list_all (\<lambda>v. CHR 0x0A \<notin> set v) (section_strings u s i)"

subsection \<open>Concrete inputs\<close>

text \<open>The environment and the listing the concrete checks run on.\<close>

definition env0 :: os_env where
  "env0 = \<lparr>env_HOME = ''/root'', env_Getwd = Inr ''/srv/app''\<rparr>"

text \<open>An environment whose working directory cannot be resolved.\<close>

definition env_no_cwd :: os_env where
  "env_no_cwd = \<lparr>env_HOME = ''/root'', env_Getwd = Inl ''getwd: no such file or directory''\<rparr>"

text \<open>Environments whose home directory is the root, and a relative path.\<close>

definition env_root_home :: os_env where
  "env_root_home = \<lparr>env_HOME = ''/'', env_Getwd = Inr ''/srv/app''\<rparr>"

definition env_relative_home :: os_env where
  "env_relative_home = \<lparr>env_HOME = ''home/u'', env_Getwd = Inr ''/srv/app''\<rparr>"

text \<open>A header line of 65536 bytes.\<close>

definition long_header :: string where
  "long_header = ''UNIT'' @ replicate 65532 CHR ''x''"

definition listing0 :: string where
  "listing0 = ''UNIT LOAD ACTIVE SUB DESCRIPTION\<newline>ssh.service loaded active running OpenBSD Secure Shell server\<newline>\<newline>cron.service loaded active\<newline>''"

text \<open>A configuration whose description holds a newline.\<close>

definition two_line_description :: SystemdServiceConfig where
  "two_line_description =
     \<lparr>cfg_Unit = \<lparr>Description = ''web\<newline>Description=again''\<rparr>,
      cfg_Service =
        \<lparr>Type = ''simple'', User = ''root'', Group = ''root'', LimitNOFILE = 4096,
         Restart = ''always'', RestartSec = ''5s'', StandardOutput = ''journal'',
         StandardError = ''journal'', ExecStart = ''/bin/true''\<rparr>,
      cfg_Install = \<lparr>WantedBy = ''multi-user.target''\<rparr>\<rparr>"

text \<open>The configuration of the example in the comment on \<open>ConfigOptions\<close>, for both packages.\<close>

definition doc_example :: SystemdServiceConfig where
  "doc_example =
     \<lparr>cfg_Unit = \<lparr>Description = ''my service''\<rparr>,
      cfg_Service =
        \<lparr>Type = ''simple'', User = ''root'', Group = ''root'', LimitNOFILE = 4096,
         Restart = ''always'', RestartSec = ''5s'',
         StandardOutput = ''append:/root/pb/std.log'',
         StandardError = ''append:/root/pb/std.log'',
         ExecStart = ''/root/pb/pocketbase serve yourdomain.com''\<rparr>,
      cfg_Install = \<lparr>WantedBy = ''multi-user.target''\<rparr>\<rparr>"

definition sd_doc_example :: sd_SystemdServiceConfig where
  "sd_doc_example =
     \<lparr>sd_Unit = cfg_Unit doc_example, sd_SystemdService = cfg_Service doc_example,
      sd_Install = cfg_Install doc_example, sd_Path = ''/lib/systemd/system/my.service''\<rparr>"

section \<open>Lemmas\<close>

subsection \<open>Evaluating the library functions on concrete strings\<close>

lemmas fields_eval = Fields.simps space_width_def space_encodings_def

lemma ScanLines_listing0:
  "ScanLines listing0 =
     [''UNIT LOAD ACTIVE SUB DESCRIPTION'',
      ''ssh.service loaded active running OpenBSD Secure Shell server'', [],
      ''cron.service loaded active'']"
  by (simp add: ScanLines_def listing0_def dropCR_def MaxScanTokenSize_def)

lemma Fields_ssh:
  "Fields ''ssh.service loaded active running OpenBSD Secure Shell server'' =
     [''ssh.service'', ''loaded'', ''active'', ''running'', ''OpenBSD'', ''Secure'', ''Shell'', ''server'']"
  by (simp add: fields_eval)

lemma Fields_cron:
  "Fields ''cron.service loaded active'' = [''cron.service'', ''loaded'', ''active'']"
  by (simp add: fields_eval)

lemmas trim_eval = TrimSpace_def TrimLeft.simps TrimRight.simps space_width_def
  space_width_end_def space_encodings_def suffix_to_prefix

subsection \<open>The lines the scanner yields\<close>

lemma lines_from_line:
  "CHR 0x0A \<notin> set l \<Longrightarrow> lines_from cur (l @ CHR 0x0A # rest) = (cur @ l) # lines_from [] rest"
  by (induction l arbitrary: cur) auto

lemma ScanLines_line:
  "CHR 0x0A \<notin> set l \<Longrightarrow> length l < MaxScanTokenSize \<Longrightarrow>
   ScanLines (l @ CHR 0x0A # rest) = dropCR l # ScanLines rest"
  by (simp add: ScanLines_def lines_from_line)

lemma ScanLines_too_long:
  "CHR 0x0A \<notin> set l \<Longrightarrow> MaxScanTokenSize \<le> length l \<Longrightarrow>
   ScanLines (l @ CHR 0x0A # rest) = []"
  by (simp add: ScanLines_def lines_from_line)

subsection \<open>The loop over the scanned lines\<close>

lemma Contains_sublist: "Contains s substr = sublist substr s"
  by (induction s) (auto simp: sublist_Cons_right)

lemma scan_loop_Cons:
  "scan_loop p (l # ls) acc = scan_loop p ls (acc @ scan_loop p [l] [])"
  by (simp add: Let_def)

lemma scan_loop_concat:
  "scan_loop p ls acc = acc @ concat (map (\<lambda>l. scan_loop p [l] []) ls)"
proof (induction ls arbitrary: acc)
  case Nil
  show ?case by simp
next
  case (Cons l ls)
  have "scan_loop p (l # ls) acc = scan_loop p ls (acc @ scan_loop p [l] [])"
    by (rule scan_loop_Cons)
  also have "\<dots> = (acc @ scan_loop p [l] []) @ concat (map (\<lambda>l. scan_loop p [l] []) ls)"
    by (rule Cons.IH)
  finally show ?case by (simp del: scan_loop.simps)
qed

lemma scan_loop_append:
  "scan_loop p (xs @ ys) [] = scan_loop p xs [] @ scan_loop p ys []"
  using scan_loop_concat [of p "xs @ ys" "[]"] scan_loop_concat [of p xs "[]"]
    scan_loop_concat [of p ys "[]"]
  by (simp del: scan_loop.simps)

lemma scan_loop_line:
  "scan_loop p (l # ls) [] = scan_loop p [l] [] @ scan_loop p ls []"
  using scan_loop_append [of p "[l]" ls] by (simp del: scan_loop.simps)

lemma scan_loop_single:
  "scan_loop p [l] [] =
     (case spec_parse_line l of
        None \<Rightarrow> []
      | Some r \<Rightarrow> if p = [] \<or> Contains (Name r) p then [r] else [])"
  by (simp add: Let_def spec_parse_line_def)

lemma scan_loop_spec:
  "scan_loop p ls [] =
     filter (\<lambda>r. p = [] \<or> Contains (Name r) p) (List.map_filter spec_parse_line ls)"
proof (induction ls)
  case Nil
  show ?case by (simp add: map_filter_simps)
next
  case (Cons l ls)
  show ?case
  proof (cases "spec_parse_line l")
    case None
    then show ?thesis
      using Cons.IH scan_loop_line [of p l ls] scan_loop_single [of p l]
      by (simp add: map_filter_simps del: scan_loop.simps)
  next
    case (Some r)
    then show ?thesis
      using Cons.IH scan_loop_line [of p l ls] scan_loop_single [of p l]
      by (simp add: map_filter_simps del: scan_loop.simps)
  qed
qed

subsection \<open>The status of \<open>POST /service/new\<close>\<close>

lemma post_service_new_status:
  "fst (post_service_new env req) =
     (if FormValue req ''name'' = [] then 400
      else if FormValue req ''path'' = [] then 400
      else if 2 \<le> length (TrimSpace (FormValue req ''path'')) \<and>
              \<not> HasPrefix (TrimSpace (FormValue req ''path'')) ''~/'' then 400
      else 200)"
proof -
  have "take 2 p = ''~/'' \<longleftrightarrow> HasPrefix p ''~/''" if "2 \<le> length p" for p :: string
    using that by (cases p; cases "tl p") (auto simp: HasPrefix_def)
  then show ?thesis
    by (auto simp: post_service_new_def Let_def StatusOK_def StatusBadRequest_def)
qed

subsection \<open>Cleaning and joining paths\<close>

lemma split_from_no_sep: "sep \<notin> set s \<Longrightarrow> split_from sep cur s = [cur @ s]"
  by (induction s arbitrary: cur) auto

lemma split_from_append_sep:
  "split_from sep cur (a @ sep # b) = split_from sep cur a @ split_from sep [] b"
  by (induction a arbitrary: cur) auto

lemma Clean_nonempty: "Clean p \<noteq> []"
  by (simp add: Clean_def Let_def)

lemma Join2_nonempty: "a \<noteq> [] \<or> b \<noteq> [] \<Longrightarrow> Join [a, b] \<noteq> []"
  by (auto simp: Join_def Clean_nonempty)

lemma resolve_baseDir_nonempty:
  assumes "env_Getwd env = Inr wd" and "IsAbs wd"
  shows "resolve_baseDir env baseDir \<noteq> []"
proof -
  from assms(2) have "wd \<noteq> []" by (auto simp: IsAbs_def HasPrefix_def)
  then have "fst (Abs env b) \<noteq> []" for b
    using assms(1) by (simp add: Abs_def Clean_nonempty Join2_nonempty)
  then show ?thesis by (simp add: resolve_baseDir_def Let_def)
qed

lemma strings_nonempty_absent_overrides:
  assumes "execCommand \<noteq> [] \<or> (\<exists>wd. env_Getwd env = Inr wd \<and> IsAbs wd)"
  shows "strings_nonempty
           (cfg_Unit (NewServiceConfig env serviceName baseDir execCommand None))
           (cfg_Service (NewServiceConfig env serviceName baseDir execCommand None))
           (cfg_Install (NewServiceConfig env serviceName baseDir execCommand None))"
proof -
  from assms have "resolve_baseDir env baseDir \<noteq> [] \<or> execCommand \<noteq> []"
    using resolve_baseDir_nonempty [of env _ baseDir] by auto
  then have "Join [resolve_baseDir env baseDir, execCommand] \<noteq> []"
    by (rule Join2_nonempty)
  then show ?thesis
    by (simp add: strings_nonempty_def section_strings_def NewServiceConfig_def Let_def
        default_options_def)
qed

lemma Clean_rooted:
  "IsAbs p \<Longrightarrow>
   Clean p = CHR ''/'' # strings_Join (foldl (clean_elem True) [] (split_from CHR ''/'' [] p)) ''/''"
  by (cases p) (auto simp: Clean_def IsAbs_def HasPrefix_def Let_def)

lemma strings_Join_snoc:
  "out \<noteq> [] \<Longrightarrow> strings_Join (out @ [e]) sep = strings_Join out sep @ sep @ e"
  by (induction out sep rule: strings_Join.induct) auto

lemma clean_elem_no_empty: "[] \<notin> set out \<Longrightarrow> [] \<notin> set (clean_elem r out e)"
  by (auto simp: clean_elem_def dest: in_set_butlastD)

lemma foldl_clean_elem_no_empty:
  "[] \<notin> set out \<Longrightarrow> [] \<notin> set (foldl (clean_elem r) out es)"
  by (induction es arbitrary: out) (auto simp: clean_elem_no_empty)

lemma strings_Join_empty_iff:
  "[] \<notin> set out \<Longrightarrow> strings_Join out sep = [] \<longleftrightarrow> out = []"
  by (induction out sep rule: strings_Join.induct) auto

lemma Clean_append_elem:
  assumes "IsAbs p" and "e \<noteq> []" and "e \<noteq> ''.''" and "e \<noteq> ''..''" and "CHR ''/'' \<notin> set e"
  shows "Clean (p @ CHR ''/'' # e) =
           (if Clean p = ''/'' then CHR ''/'' # e else Clean p @ CHR ''/'' # e)"
proof -
  define out where "out = foldl (clean_elem True) [] (split_from CHR ''/'' [] p)"
  have abs: "IsAbs (p @ CHR ''/'' # e)"
    using assms(1) by (cases p) (auto simp: IsAbs_def HasPrefix_def)
  have "split_from CHR ''/'' [] (p @ CHR ''/'' # e) = split_from CHR ''/'' [] p @ [e]"
    using assms(5) by (simp add: split_from_append_sep split_from_no_sep)
  then have "foldl (clean_elem True) [] (split_from CHR ''/'' [] (p @ CHR ''/'' # e)) = out @ [e]"
    using assms(2-4) by (simp add: out_def clean_elem_def)
  then have long: "Clean (p @ CHR ''/'' # e) = CHR ''/'' # strings_Join (out @ [e]) ''/''"
    using Clean_rooted [OF abs] by simp
  have short: "Clean p = CHR ''/'' # strings_Join out ''/''"
    using Clean_rooted [OF assms(1)] by (simp add: out_def)
  have "[] \<notin> set out"
    unfolding out_def by (rule foldl_clean_elem_no_empty) simp
  then have empty: "strings_Join out ''/'' = [] \<longleftrightarrow> out = []"
    by (rule strings_Join_empty_iff)
  show ?thesis
  proof (cases "out = []")
    case True
    with long short show ?thesis by simp
  next
    case False
    with long short empty show ?thesis by (simp add: strings_Join_snoc)
  qed
qed

lemma normal_dir_extend:
  assumes "normal_dir p" and "e \<noteq> []" and "e \<noteq> ''.''" and "e \<noteq> ''..''" and "CHR ''/'' \<notin> set e"
  shows "Clean (p @ CHR ''/'' # e) = p @ CHR ''/'' # e" and "normal_dir (p @ CHR ''/'' # e)"
proof -
  from assms(1) have p: "IsAbs p" "Clean p = p" "p \<noteq> ''/''"
    by (simp_all add: normal_dir_def)
  show 1: "Clean (p @ CHR ''/'' # e) = p @ CHR ''/'' # e"
    using Clean_append_elem [OF p(1) assms(2-5)] p(2,3) by simp
  have "IsAbs (p @ CHR ''/'' # e)"
    using p(1) by (cases p) (auto simp: IsAbs_def HasPrefix_def)
  moreover have "p @ CHR ''/'' # e \<noteq> ''/''"
    using assms(2) by (cases p) auto
  ultimately show "normal_dir (p @ CHR ''/'' # e)"
    using 1 by (simp add: normal_dir_def)
qed

lemma Join_normal_dir:
  assumes "normal_dir p" and "e \<noteq> []" and "e \<noteq> ''.''" and "e \<noteq> ''..''" and "CHR ''/'' \<notin> set e"
  shows "Join [p, e] = p @ CHR ''/'' # e"
proof -
  from assms(1) have "p \<noteq> []" by (auto simp: normal_dir_def IsAbs_def HasPrefix_def)
  then have "Join [p, e] = Clean (p @ CHR ''/'' # e)" by (simp add: Join_def)
  then show ?thesis using normal_dir_extend(1) [OF assms] by simp
qed

lemma resolve_home_pb:
  assumes "env_HOME env = home" and "normal_dir home"
  shows "resolve_baseDir env ''~/pb'' = home @ ''/pb''" and "normal_dir (home @ ''/pb'')"
proof -
  have pb: "Clean (home @ ''/pb'') = home @ ''/pb''" "normal_dir (home @ ''/pb'')"
    using normal_dir_extend [OF assms(2), of "''pb''"] by simp_all
  show "normal_dir (home @ ''/pb'')" by (rule pb(2))
  from assms(2) have "home \<noteq> []" by (auto simp: normal_dir_def IsAbs_def HasPrefix_def)
  moreover have "Join [home, ''pb''] = home @ ''/pb''"
    using Join_normal_dir [OF assms(2), of "''pb''"] by simp
  moreover have "IsAbs (home @ ''/pb'')" using pb(2) by (simp add: normal_dir_def)
  ultimately show "resolve_baseDir env ''~/pb'' = home @ ''/pb''"
    using assms(1) pb(1)
    by (simp add: resolve_baseDir_def HasPrefix_def UserHomeDir_def Abs_def)
qed

lemma home_pb_paths:
  assumes "normal_dir b"
  shows "Join [b, ''pocketbase serve x.com''] = b @ ''/pocketbase serve x.com''"
    and "Join [b, ''logs'', ''service.log''] = b @ ''/logs/service.log''"
proof -
  show "Join [b, ''pocketbase serve x.com''] = b @ ''/pocketbase serve x.com''"
    using Join_normal_dir [OF assms, of "''pocketbase serve x.com''"] by simp
  have logs: "normal_dir (b @ ''/logs'')"
    using normal_dir_extend(2) [OF assms, of "''logs''"] by simp
  from assms have "b \<noteq> []" by (auto simp: normal_dir_def IsAbs_def HasPrefix_def)
  then have "Join [b, ''logs'', ''service.log''] = Clean ((b @ ''/logs'') @ ''/service.log'')"
    by (simp add: Join_def)
  also have "\<dots> = (b @ ''/logs'') @ ''/service.log''"
    using normal_dir_extend(1) [OF logs, of "''service.log''"] by simp
  finally show "Join [b, ''logs'', ''service.log''] = b @ ''/logs/service.log''" by simp
qed

lemma split_from_no_sep_elems:
  "sep \<notin> set cur \<Longrightarrow> \<forall>e\<in>set (split_from sep cur s). sep \<notin> set e"
proof (induction s arbitrary: cur)
  case Nil
  then show ?case by simp
next
  case (Cons c s)
  from Cons.IH [of "[]"] have tail: "\<forall>e\<in>set (split_from sep [] s). sep \<notin> set e"
    by simp
  show ?case
  proof (cases "c = sep")
    case True
    with tail Cons.prems show ?thesis by simp
  next
    case False
    with Cons.prems have "sep \<notin> set (cur @ [c])" by auto
    from Cons.IH [OF this] False show ?thesis by simp
  qed
qed

lemma clean_elem_plain:
  "list_all plain_elem out \<Longrightarrow> CHR ''/'' \<notin> set e \<Longrightarrow> list_all plain_elem (clean_elem True out e)"
  by (auto simp: clean_elem_def plain_elem_def list_all_iff dest: in_set_butlastD)

lemma foldl_clean_elem_plain:
  "list_all plain_elem out \<Longrightarrow> \<forall>e\<in>set es. CHR ''/'' \<notin> set e \<Longrightarrow>
   list_all plain_elem (foldl (clean_elem True) out es)"
  by (induction es arbitrary: out) (auto simp: clean_elem_plain)

lemma foldl_clean_elem_id:
  "list_all plain_elem es \<Longrightarrow> foldl (clean_elem r) out es = out @ es"
  by (induction es arbitrary: out) (auto simp: clean_elem_def plain_elem_def)

lemma split_strings_Join:
  "list_all plain_elem out \<Longrightarrow> out \<noteq> [] \<Longrightarrow> split_from CHR ''/'' [] (strings_Join out ''/'') = out"
proof (induction out "''/''" rule: strings_Join.induct)
  case 1
  then show ?case by simp
next
  case (2 e)
  then show ?case by (simp add: split_from_no_sep plain_elem_def)
next
  case (3 e v va)
  then have "split_from CHR ''/'' [] (e @ CHR ''/'' # strings_Join (v # va) ''/'') =
      [e] @ (v # va)"
    by (simp add: split_from_append_sep split_from_no_sep plain_elem_def)
  then show ?case by simp
qed

lemma Clean_idem:
  assumes "IsAbs p"
  shows "Clean (Clean p) = Clean p" and "IsAbs (Clean p)"
proof -
  define out where "out = foldl (clean_elem True) [] (split_from CHR ''/'' [] p)"
  have short: "Clean p = CHR ''/'' # strings_Join out ''/''"
    using Clean_rooted [OF assms] by (simp add: out_def)
  then show abs: "IsAbs (Clean p)" by (simp add: IsAbs_def HasPrefix_def)
  have "\<forall>e\<in>set (split_from CHR ''/'' [] p). CHR ''/'' \<notin> set e"
    using split_from_no_sep_elems [of "CHR ''/''" "[]" p] by simp
  then have plain: "list_all plain_elem out"
    unfolding out_def by (intro foldl_clean_elem_plain) simp_all
  have "foldl (clean_elem True) [] (split_from CHR ''/'' [] (Clean p)) = out"
  proof (cases "out = []")
    case True
    then show ?thesis by (simp add: short clean_elem_def)
  next
    case False
    then have "split_from CHR ''/'' [] (Clean p) = [] # out"
      using split_strings_Join [OF plain] by (simp add: short)
    then show ?thesis
      using foldl_clean_elem_id [OF plain, of True "[]"] by (simp add: clean_elem_def)
  qed
  then show "Clean (Clean p) = Clean p"
    using Clean_rooted [OF abs] short by simp
qed

lemma Clean_append_elem_abs:
  assumes "IsAbs p" and "e \<noteq> []" and "e \<noteq> ''.''" and "e \<noteq> ''..''" and "CHR ''/'' \<notin> set e"
  shows "IsAbs (p @ CHR ''/'' # e)"
    and "Clean (Clean p @ CHR ''/'' # e) = Clean (p @ CHR ''/'' # e)"
proof -
  show "IsAbs (p @ CHR ''/'' # e)"
    using assms(1) by (cases p) (auto simp: IsAbs_def HasPrefix_def)
  show "Clean (Clean p @ CHR ''/'' # e) = Clean (p @ CHR ''/'' # e)"
    using Clean_append_elem [OF Clean_idem(2) [OF assms(1)] assms(2-5)]
      Clean_append_elem [OF assms] Clean_idem(1) [OF assms(1)]
    by simp
qed

lemma example_paths_joined:
  assumes "env_HOME env = home" and "IsAbs home"
  shows "Join [resolve_baseDir env ''~/pb'', ''pocketbase serve x.com''] =
           Join [home, ''pb'', ''pocketbase serve x.com'']"
    and "Join [resolve_baseDir env ''~/pb'', ''logs'', ''service.log''] =
           Join [home, ''pb'', ''logs'', ''service.log'']"
proof -
  from assms(2) have ne: "home \<noteq> []" by (auto simp: IsAbs_def HasPrefix_def)
  have pb: "IsAbs (home @ ''/pb'')"
    using Clean_append_elem_abs(1) [OF assms(2), of "''pb''"] by simp
  have "Join [home, ''pb''] = Clean (home @ ''/pb'')"
    using ne by (simp add: Join_def)
  then have base: "resolve_baseDir env ''~/pb'' = Clean (home @ ''/pb'')"
    using assms(1) ne Clean_idem [OF pb]
    by (simp add: resolve_baseDir_def HasPrefix_def UserHomeDir_def Abs_def)
  have bne: "Clean (home @ ''/pb'') \<noteq> []" by (rule Clean_nonempty)
  have "Join [Clean (home @ ''/pb''), ''pocketbase serve x.com''] =
      Clean (Clean (home @ ''/pb'') @ ''/pocketbase serve x.com'')"
    using bne by (simp add: Join_def)
  also have "\<dots> = Clean ((home @ ''/pb'') @ ''/pocketbase serve x.com'')"
    using Clean_append_elem_abs(2) [OF pb, of "''pocketbase serve x.com''"] by simp
  also have "\<dots> = Join [home, ''pb'', ''pocketbase serve x.com'']"
    using ne by (simp add: Join_def)
  finally show "Join [resolve_baseDir env ''~/pb'', ''pocketbase serve x.com''] =
           Join [home, ''pb'', ''pocketbase serve x.com'']"
    by (simp add: base)
  have logs: "IsAbs ((home @ ''/pb'') @ ''/logs'')"
    using Clean_append_elem_abs(1) [OF pb, of "''logs''"] by simp
  have clogs: "IsAbs (Clean (home @ ''/pb'') @ ''/logs'')"
    using Clean_append_elem_abs(1) [OF Clean_idem(2) [OF pb], of "''logs''"] by simp
  have "Join [Clean (home @ ''/pb''), ''logs'', ''service.log''] =
      Clean ((Clean (home @ ''/pb'') @ ''/logs'') @ ''/service.log'')"
    using bne by (simp add: Join_def)
  also have "\<dots> = Clean (Clean (Clean (home @ ''/pb'') @ ''/logs'') @ ''/service.log'')"
    using Clean_append_elem_abs(2) [OF clogs, of "''service.log''"] by simp
  also have "Clean (Clean (home @ ''/pb'') @ ''/logs'') = Clean ((home @ ''/pb'') @ ''/logs'')"
    using Clean_append_elem_abs(2) [OF pb, of "''logs''"] by simp
  also have "Clean (Clean ((home @ ''/pb'') @ ''/logs'') @ ''/service.log'') =
      Clean (((home @ ''/pb'') @ ''/logs'') @ ''/service.log'')"
    using Clean_append_elem_abs(2) [OF logs, of "''service.log''"] by simp
  also have "\<dots> = Join [home, ''pb'', ''logs'', ''service.log'']"
    using ne by (simp add: Join_def)
  finally show "Join [resolve_baseDir env ''~/pb'', ''logs'', ''service.log''] =
           Join [home, ''pb'', ''logs'', ''service.log'']"
    by (simp add: base)
qed

lemma Clean_root_home: "Clean ''/root'' = ''/root''"
  by (simp add: Clean_def clean_elem_def)

lemma normal_dir_lib: "normal_dir ''/lib/systemd/system''"
  by (simp add: normal_dir_def IsAbs_def HasPrefix_def Clean_def clean_elem_def)

lemma service_file_elem:
  "sn @ ''.service'' \<noteq> []" "sn @ ''.service'' \<noteq> ''.''" "sn @ ''.service'' \<noteq> ''..''"
  by (auto dest: arg_cong [where f = length])

lemma savePath_plain:
  assumes "CHR ''/'' \<notin> set sn"
  shows "Join [''/lib/systemd/system'', sn @ ''.service''] =
           ''/lib/systemd/system/'' @ sn @ ''.service''"
proof -
  from assms have "CHR ''/'' \<notin> set (sn @ ''.service'')" by simp
  from Join_normal_dir [OF normal_dir_lib service_file_elem this]
  show ?thesis by simp
qed

subsection \<open>The lines of a rendered unit file\<close>

lemma lines_from_terminated:
  "list_all (\<lambda>l. CHR 0x0A \<notin> set l) ls \<Longrightarrow>
   lines_from [] (concat (map (\<lambda>l. l @ [CHR 0x0A]) ls)) = ls"
  by (induction ls) (simp_all add: lines_from_line)

lemma nat_digits_chars: "set (nat_digits n) \<subseteq> set ''0123456789''"
proof (induction n rule: nat_digits.induct)
  case (1 n)
  have digit: "''0123456789'' ! k \<in> set ''0123456789''" if "k < 10" for k
    using that by (intro nth_mem) simp
  show ?case
  proof (cases "n < 10")
    case True
    then show ?thesis
      using digit [of n] by (subst nat_digits.simps) simp
  next
    case False
    have "n mod 10 < 10" by simp
    with False 1 digit [of "n mod 10"] show ?thesis
      by (subst nat_digits.simps) simp
  qed
qed

lemma Itoa_single_line: "CHR 0x0A \<notin> set (Itoa n)"
  using nat_digits_chars [of "nat n"] nat_digits_chars [of "nat (- n)"]
  by (auto simp: Itoa_def)

lemma rendered_lines:
  "ToString c =
     concat (map (\<lambda>l. l @ [CHR 0x0A])
       [''[Unit]'', ''Description='' @ Description (cfg_Unit c), [],
        ''[Service]'', ''Type='' @ Type (cfg_Service c), ''User='' @ User (cfg_Service c),
        ''Group='' @ Group (cfg_Service c),
        ''LimitNOFILE='' @ Itoa (LimitNOFILE (cfg_Service c)),
        ''Restart='' @ Restart (cfg_Service c), ''RestartSec='' @ RestartSec (cfg_Service c),
        ''StandardOutput='' @ StandardOutput (cfg_Service c),
        ''StandardError='' @ StandardError (cfg_Service c),
        ''ExecStart='' @ ExecStart (cfg_Service c), [],
        ''[Install]'', ''WantedBy='' @ WantedBy (cfg_Install c)])"
  by (simp add: ToString_def)

lemma sd_rendered_lines:
  "fst (sd_ToString c) =
     concat (map (\<lambda>l. l @ [CHR 0x0A])
       [''[Unit]'', ''Description='' @ Description (sd_Unit c), [],
        ''[SystemdService]'', ''Type='' @ Type (sd_SystemdService c),
        ''User='' @ User (sd_SystemdService c),
        ''Group='' @ Group (sd_SystemdService c),
        ''LimitNOFILE='' @ Itoa (LimitNOFILE (sd_SystemdService c)),
        ''Restart='' @ Restart (sd_SystemdService c),
        ''RestartSec='' @ RestartSec (sd_SystemdService c),
        ''StandardOutput='' @ StandardOutput (sd_SystemdService c),
        ''StandardError='' @ StandardError (sd_SystemdService c),
        ''ExecStart='' @ ExecStart (sd_SystemdService c), [],
        ''[Install]'', ''WantedBy='' @ WantedBy (sd_Install c)])"
  by (simp add: sd_ToString_def)

lemma structure_of_lines:
  assumes "list_all (\<lambda>v. CHR 0x0A \<notin> set v) [d, t, u, g, n, r, rs, so, se, ex, w]"
    and "header \<noteq> []" and "CHR 0x0A \<notin> set header"
  shows "unit_structure
     (concat (map (\<lambda>l. l @ [CHR 0x0A])
       [''[Unit]'', ''Description='' @ d, [],
        header, ''Type='' @ t, ''User='' @ u, ''Group='' @ g, ''LimitNOFILE='' @ n,
        ''Restart='' @ r, ''RestartSec='' @ rs, ''StandardOutput='' @ so,
        ''StandardError='' @ se, ''ExecStart='' @ ex, [],
        ''[Install]'', ''WantedBy='' @ w])) = expected_structure header"
proof -
  have "lines_from []
     (concat (map (\<lambda>l. l @ [CHR 0x0A])
       [''[Unit]'', ''Description='' @ d, [],
        header, ''Type='' @ t, ''User='' @ u, ''Group='' @ g, ''LimitNOFILE='' @ n,
        ''Restart='' @ r, ''RestartSec='' @ rs, ''StandardOutput='' @ so,
        ''StandardError='' @ se, ''ExecStart='' @ ex, [],
        ''[Install]'', ''WantedBy='' @ w])) =
       [''[Unit]'', ''Description='' @ d, [],
        header, ''Type='' @ t, ''User='' @ u, ''Group='' @ g, ''LimitNOFILE='' @ n,
        ''Restart='' @ r, ''RestartSec='' @ rs, ''StandardOutput='' @ so,
        ''StandardError='' @ se, ''ExecStart='' @ ex, [],
        ''[Install]'', ''WantedBy='' @ w]"
    using assms(1,3) by (intro lines_from_terminated) simp
  then show ?thesis
    using assms(2)
    by (simp add: unit_structure_def expected_structure_def section_of_def key_of_def)
qed

section \<open>The claims\<close>

text \<open>
  C1: \<open>POST /service/new\<close> answers 400 when \<open>name\<close> is empty, when \<open>path\<close> is empty, and
  whenever the trimmed \<open>path\<close> does not start with \<open>~/\<close>. The handler tests the prefix
  only when the trimmed path has at least two bytes: for the path \<open>a\<close>, which does not
  start with \<open>~/\<close>, it answers 200.
\<close>

theorem short_path_accepted:
  "fst (post_service_new env [(''name'', ''svc''), (''path'', ''a'')]) = 200"
  by (simp add: post_service_new_def FormValue_def StatusOK_def trim_eval)

text \<open>
  C2: every string field of the configuration a builder returns is non-empty, the
  defaults filling any override left unset. The builders take the defaults only for
  absent overrides. On the overrides of the usage example in the comment on
  \<open>NewServiceConfig\<close>, which set the user and the group only, the type, the restart
  policy and the restart delay are empty. With absent overrides, an empty command and a
  relative base directory, the command path is empty where the working directory does
  not resolve.
\<close>

theorem unset_override_left_empty:
  "Type (cfg_Service (NewServiceConfig env0 ''pocketbase'' ''~/pb''
      ''pocketbase serve yourdomain.com'' (Some example_options))) = [] \<and>
   Restart (cfg_Service (NewServiceConfig env0 ''pocketbase'' ''~/pb''
      ''pocketbase serve yourdomain.com'' (Some example_options))) = [] \<and>
   RestartSec (cfg_Service (NewServiceConfig env0 ''pocketbase'' ''~/pb''
      ''pocketbase serve yourdomain.com'' (Some example_options))) = [] \<and>
   \<not> strings_nonempty
     (cfg_Unit (NewServiceConfig env0 ''pocketbase'' ''~/pb''
        ''pocketbase serve yourdomain.com'' (Some example_options)))
     (cfg_Service (NewServiceConfig env0 ''pocketbase'' ''~/pb''
        ''pocketbase serve yourdomain.com'' (Some example_options)))
     (cfg_Install (NewServiceConfig env0 ''pocketbase'' ''~/pb''
        ''pocketbase serve yourdomain.com'' (Some example_options))) \<and>
   Type (sd_SystemdService (NewSystemdServiceConfig env0 ''pocketbase'' ''~/pb''
      ''pocketbase serve yourdomain.com'' (Some example_options))) = [] \<and>
   ExecStart (cfg_Service (NewServiceConfig env_no_cwd ''web'' ''srv'' [] None)) = []"
  by (simp add: strings_nonempty_def section_strings_def NewServiceConfig_def
      NewSystemdServiceConfig_def Let_def
      example_options_def resolve_baseDir_def HasPrefix_def Abs_def IsAbs_def env_no_cwd_def
      Join_def)

text \<open>
  C3: the rendered text consists of the sections Unit, Service and Install in this
  order, each expected key once in its section, one blank line between two sections.
  As amended: this holds of every configuration whose string fields hold no newline;
  for package systemd it holds with the header that package writes for the middle
  section.
\<close>

theorem rendered_structure:
  assumes "single_line_values (cfg_Unit c) (cfg_Service c) (cfg_Install c)"
    and "single_line_values (sd_Unit d) (sd_SystemdService d) (sd_Install d)"
  shows "unit_structure (ToString c) = expected_structure ''[Service]'' \<and>
         (\<exists>header. unit_structure (fst (sd_ToString d)) = expected_structure header)"
proof -
  have "unit_structure (ToString c) = expected_structure ''[Service]''"
    unfolding rendered_lines
    using assms(1) Itoa_single_line [of "LimitNOFILE (cfg_Service c)"]
    by (intro structure_of_lines) (simp_all add: single_line_values_def section_strings_def)
  moreover have "unit_structure (fst (sd_ToString d)) = expected_structure ''[SystemdService]''"
    unfolding sd_rendered_lines
    using assms(2) Itoa_single_line [of "LimitNOFILE (sd_SystemdService d)"]
    by (intro structure_of_lines) (simp_all add: single_line_values_def section_strings_def)
  ultimately show ?thesis by blast
qed

theorem rendered_structure_witness:
  "unit_structure (ToString doc_example) = expected_structure ''[Service]''"
proof -
  have 1: "single_line_values (cfg_Unit doc_example) (cfg_Service doc_example)
      (cfg_Install doc_example)"
    by (simp add: single_line_values_def section_strings_def doc_example_def)
  have 2: "single_line_values (sd_Unit sd_doc_example) (sd_SystemdService sd_doc_example)
      (sd_Install sd_doc_example)"
    by (simp add: single_line_values_def section_strings_def doc_example_def
        sd_doc_example_def)
  from rendered_structure [OF 1 2] show ?thesis by (rule conjunct1)
qed

text \<open>
  C3 as stated fails on a description of two lines: the Unit section then holds the key
  Description twice.
\<close>

theorem second_description_key:
  "unit_structure (ToString two_line_description) \<noteq> expected_structure ''[Service]'' \<and>
   fst (unit_structure (ToString two_line_description) ! 0) = ''[Unit]'' \<and>
   snd (unit_structure (ToString two_line_description) ! 0) = [''Description'', ''Description'']"
  by (simp add: unit_structure_def expected_structure_def section_of_def key_of_def
      ToString_def two_line_description_def Itoa_def nat_digits.simps)

text \<open>
  C4: two requests to \<open>POST /service/new\<close> that both pass the validation get the same
  body, the rendering of the fixed example configuration (pocketbase, \<open>~/pb\<close>,
  \<open>pocketbase serve yourdomain.com\<close>, user and group pocketbase): the submitted name and
  path do not reach the output.
\<close>

theorem post_body_ignores_form:
  assumes "fst (post_service_new env req1) = StatusOK"
    and "fst (post_service_new env req2) = StatusOK"
  shows "snd (post_service_new env req1) = snd (post_service_new env req2) \<and>
         snd (post_service_new env req1) =
           fst (sd_ToString
             (NewSystemdServiceConfig env ''pocketbase'' ''~/pb''
                ''pocketbase serve yourdomain.com''
                (Some \<lparr>opt_Type = [], opt_User = ''pocketbase'', opt_Group = ''pocketbase'',
                       opt_LimitNOFILE = 0, opt_Restart = [], opt_RestartSec = []\<rparr>)))"
  using assms
  by (auto simp: post_service_new_def Let_def StatusOK_def StatusBadRequest_def
      example_config_def example_options_def split: if_splits)

theorem post_body_ignores_form_witness:
  "snd (post_service_new env0 [(''name'', ''alpha''), (''path'', ''~/srv/alpha'')]) =
   snd (post_service_new env0 [(''name'', ''beta''), (''path'', ''  ~/b '')])"
proof -
  have 1: "fst (post_service_new env0 [(''name'', ''alpha''), (''path'', ''~/srv/alpha'')]) =
      StatusOK"
    by (simp add: post_service_new_def FormValue_def trim_eval)
  have 2: "fst (post_service_new env0 [(''name'', ''beta''), (''path'', ''  ~/b '')]) = StatusOK"
    by (simp add: post_service_new_def FormValue_def trim_eval)
  from post_body_ignores_form [OF 1 2] show ?thesis by (rule conjunct1)
qed

text \<open>
  C5: the two builders agree on every field they share and their renderings differ in
  the header of the middle section only; package systemd adds the path
  \<open>/lib/systemd/system/<serviceName>.service\<close>. As amended: the path is the cleaned join
  of \<open>/lib/systemd/system\<close> and \<open><serviceName>.service\<close>, which is that text whenever the
  service name holds no slash.
\<close>

theorem builders_agree:
  "sd_Unit (NewSystemdServiceConfig env serviceName baseDir execCommand opts) =
     cfg_Unit (NewServiceConfig env serviceName baseDir execCommand opts) \<and>
   sd_SystemdService (NewSystemdServiceConfig env serviceName baseDir execCommand opts) =
     cfg_Service (NewServiceConfig env serviceName baseDir execCommand opts) \<and>
   sd_Install (NewSystemdServiceConfig env serviceName baseDir execCommand opts) =
     cfg_Install (NewServiceConfig env serviceName baseDir execCommand opts) \<and>
   sd_Path (NewSystemdServiceConfig env serviceName baseDir execCommand opts) =
     Join [''/lib/systemd/system'', serviceName @ ''.service''] \<and>
   (CHR ''/'' \<notin> set serviceName \<longrightarrow>
      sd_Path (NewSystemdServiceConfig env serviceName baseDir execCommand opts) =
        ''/lib/systemd/system/'' @ serviceName @ ''.service'') \<and>
   (\<exists>rest.
      ToString (NewServiceConfig env serviceName baseDir execCommand opts) =
        ''[Unit]\<newline>Description='' @ serviceName @ '' service\<newline>\<newline>'' @
        ''[Service]\<newline>'' @ rest \<and>
      fst (sd_ToString (NewSystemdServiceConfig env serviceName baseDir execCommand opts)) =
        ''[Unit]\<newline>Description='' @ serviceName @ '' service\<newline>\<newline>'' @
        ''[SystemdService]\<newline>'' @ rest)"
proof -
  let ?a = "NewServiceConfig env serviceName baseDir execCommand opts"
  let ?b = "NewSystemdServiceConfig env serviceName baseDir execCommand opts"
  have fields: "sd_Unit ?b = cfg_Unit ?a" "sd_SystemdService ?b = cfg_Service ?a"
    "sd_Install ?b = cfg_Install ?a"
    "sd_Path ?b = Join [''/lib/systemd/system'', serviceName @ ''.service'']"
    by (simp_all add: NewServiceConfig_def NewSystemdServiceConfig_def Let_def)
  have descr: "Description (cfg_Unit ?a) = serviceName @ '' service''"
    by (simp add: NewServiceConfig_def Let_def)
  have render: "\<exists>rest.
      ToString ?a =
        ''[Unit]\<newline>Description='' @ serviceName @ '' service\<newline>\<newline>'' @
        ''[Service]\<newline>'' @ rest \<and>
      fst (sd_ToString ?b) =
        ''[Unit]\<newline>Description='' @ serviceName @ '' service\<newline>\<newline>'' @
        ''[SystemdService]\<newline>'' @ rest"
    unfolding ToString_def sd_ToString_def fields descr fst_conv
    by (intro exI conjI) (simp_all only: append_assoc append_Cons append_Nil)
  from fields render savePath_plain [of serviceName] show ?thesis by simp
qed

theorem builders_agree_witness:
  "sd_Path (NewSystemdServiceConfig env0 ''pocketbase'' ''~/pb'' ''run'' None) =
     ''/lib/systemd/system/pocketbase.service'' \<and>
   sd_SystemdService (NewSystemdServiceConfig env0 ''pocketbase'' ''~/pb'' ''run'' None) =
     cfg_Service (NewServiceConfig env0 ''pocketbase'' ''~/pb'' ''run'' None)"
proof -
  note agree = builders_agree [of env0 "''pocketbase''" "''~/pb''" "''run''" None]
  have plain: "CHR ''/'' \<notin> set ''pocketbase''" by simp
  have "sd_Path (NewSystemdServiceConfig env0 ''pocketbase'' ''~/pb'' ''run'' None) =
      ''/lib/systemd/system/'' @ ''pocketbase'' @ ''.service''"
    using agree [THEN conjunct2, THEN conjunct2, THEN conjunct2, THEN conjunct2,
        THEN conjunct1, THEN mp, OF plain] .
  moreover note agree [THEN conjunct2, THEN conjunct1]
  ultimately show ?thesis by simp
qed

text \<open>
  C5 as stated fails on the service name \<open>../x\<close>: the join leaves the directory
  \<open>/lib/systemd/system\<close>.
\<close>

theorem save_path_is_cleaned:
  "sd_Path (NewSystemdServiceConfig env0 ''../x'' ''~/pb'' ''run'' None) =
     ''/lib/systemd/x.service'' \<and>
   sd_Path (NewSystemdServiceConfig env0 ''../x'' ''~/pb'' ''run'' None) \<noteq>
     ''/lib/systemd/system/'' @ ''../x'' @ ''.service''"
  by (simp add: NewSystemdServiceConfig_def Let_def Join_def Clean_def clean_elem_def)

text \<open>
  C6: with no overrides (\<open>opts = nil\<close>) both builders give type simple, user and group
  root, a file-descriptor limit of 4096, restart policy always and restart delay 5s.
\<close>

theorem build_defaults:
  "Type (cfg_Service (NewServiceConfig env serviceName baseDir execCommand None)) = ''simple'' \<and>
   User (cfg_Service (NewServiceConfig env serviceName baseDir execCommand None)) = ''root'' \<and>
   Group (cfg_Service (NewServiceConfig env serviceName baseDir execCommand None)) = ''root'' \<and>
   LimitNOFILE (cfg_Service (NewServiceConfig env serviceName baseDir execCommand None)) = 4096 \<and>
   Restart (cfg_Service (NewServiceConfig env serviceName baseDir execCommand None)) = ''always'' \<and>
   RestartSec (cfg_Service (NewServiceConfig env serviceName baseDir execCommand None)) = ''5s'' \<and>
   Type (sd_SystemdService (NewSystemdServiceConfig env serviceName baseDir execCommand None)) = ''simple'' \<and>
   User (sd_SystemdService (NewSystemdServiceConfig env serviceName baseDir execCommand None)) = ''root'' \<and>
   Group (sd_SystemdService (NewSystemdServiceConfig env serviceName baseDir execCommand None)) = ''root'' \<and>
   LimitNOFILE (sd_SystemdService (NewSystemdServiceConfig env serviceName baseDir execCommand None)) = 4096 \<and>
   Restart (sd_SystemdService (NewSystemdServiceConfig env serviceName baseDir execCommand None)) = ''always'' \<and>
   RestartSec (sd_SystemdService (NewSystemdServiceConfig env serviceName baseDir execCommand None)) = ''5s''"
  by (simp add: NewServiceConfig_def NewSystemdServiceConfig_def default_options_def Let_def)

text \<open>
  C7: with a non-empty filter the listing returns exactly the parsed records whose name
  contains the filter as a substring, in their order; with the empty filter it returns
  all parsed records.
\<close>

theorem list_filters_by_name:
  "(partialName \<noteq> [] \<longrightarrow>
      GetSystemDServices (output, None) partialName =
        Inr (filter (\<lambda>r. sublist partialName (Name r)) (spec_parsed_records output))) \<and>
   GetSystemDServices (output, None) [] = Inr (spec_parsed_records output)"
  by (simp add: GetSystemDServices_def scan_loop_spec spec_parsed_records_def Contains_sublist)

theorem list_filters_by_name_witness:
  "GetSystemDServices (listing0, None) ''ssh'' =
     Inr [\<lparr>Name = ''ssh.service'', Unit = ''loaded'', ActiveState = ''active'',
           SubState = ''running'', LoadState = ''OpenBSD'',
           Path = ''/etc/systemd/system/ssh.service.service''\<rparr>]"
proof -
  have "spec_parsed_records listing0 =
     [\<lparr>Name = ''ssh.service'', Unit = ''loaded'', ActiveState = ''active'',
           SubState = ''running'', LoadState = ''OpenBSD'',
           Path = ''/etc/systemd/system/ssh.service.service''\<rparr>,
      \<lparr>Name = ''cron.service'', Unit = ''loaded'', ActiveState = ''active'',
           SubState = [], LoadState = [],
           Path = ''/etc/systemd/system/cron.service.service''\<rparr>]"
    by (simp add: spec_parsed_records_def ScanLines_listing0 map_filter_simps
        spec_parse_line_def HasPrefix_def Fields_ssh Fields_cron Fields.simps [of "[]"])
  then show ?thesis
    using list_filters_by_name [of "''ssh''" listing0]
    by (simp add: sublist_code)
qed

text \<open>
  C8: a line the scanner yields that is no header line, has at least three fields and
  passes the filter adds one record, between the records of the lines before it and
  those of the lines after it: name, unit file and active state are fields 0 to 2,
  sub-state and load state are fields 3 and 4 where present and empty otherwise, and
  the path is \<open>/etc/systemd/system/<name>.service\<close>.
\<close>

theorem retained_line_record:
  assumes "ScanLines output = before @ line # after"
    and "\<not> HasPrefix line ''UNIT''"
    and "fs = Fields line"
    and "3 \<le> length fs"
    and "partialName = [] \<or> Contains (fs ! 0) partialName"
  shows "\<exists>r. GetSystemDServices (output, None) partialName =
            Inr (scan_loop partialName before [] @ r # scan_loop partialName after []) \<and>
          Name r = fs ! 0 \<and> Unit r = fs ! 1 \<and> ActiveState r = fs ! 2 \<and>
          SubState r = (if 3 < length fs then fs ! 3 else []) \<and>
          LoadState r = (if 4 < length fs then fs ! 4 else []) \<and>
          Path r = ''/etc/systemd/system/'' @ fs ! 0 @ ''.service''"
proof -
  define r where "r = \<lparr>Name = fs ! 0, Unit = fs ! 1, ActiveState = fs ! 2,
    SubState = (if 3 < length fs then fs ! 3 else []),
    LoadState = (if 4 < length fs then fs ! 4 else []),
    Path = ''/etc/systemd/system/'' @ fs ! 0 @ ''.service''\<rparr>"
  have one: "scan_loop partialName [line] [] = [r]"
    using assms(2-5) by (auto simp: Let_def r_def)
  have "scan_loop partialName (before @ line # after) [] =
          scan_loop partialName before [] @ scan_loop partialName [line] [] @
          scan_loop partialName after []"
    by (simp add: scan_loop_append scan_loop_line [of partialName line after]
        del: scan_loop.simps)
  then have "GetSystemDServices (output, None) partialName =
      Inr (scan_loop partialName before [] @ r # scan_loop partialName after [])"
    using assms(1) one by (simp add: GetSystemDServices_def del: scan_loop.simps)
  then show ?thesis
    by (intro exI [of _ r]) (simp add: r_def)
qed

theorem retained_line_record_witness:
  "\<exists>r. GetSystemDServices (listing0, None) ''cron'' = Inr [r] \<and>
        Name r = ''cron.service'' \<and> Unit r = ''loaded'' \<and> ActiveState r = ''active'' \<and>
        SubState r = [] \<and> LoadState r = [] \<and>
        Path r = ''/etc/systemd/system/cron.service.service''"
proof -
  have 1: "ScanLines listing0 =
      [''UNIT LOAD ACTIVE SUB DESCRIPTION'',
       ''ssh.service loaded active running OpenBSD Secure Shell server'', []] @
      ''cron.service loaded active'' # []"
    by (simp add: ScanLines_listing0)
  have 2: "\<not> HasPrefix ''cron.service loaded active'' ''UNIT''"
    by (simp add: HasPrefix_def)
  have 3: "[''cron.service'', ''loaded'', ''active''] = Fields ''cron.service loaded active''"
    by (simp add: Fields_cron)
  have 4: "3 \<le> length [''cron.service'', ''loaded'', ''active'']"
    by simp
  have 5: "''cron'' = [] \<or> Contains ([''cron.service'', ''loaded'', ''active''] ! 0) ''cron''"
    by simp
  have 6: "scan_loop ''cron'' [''UNIT LOAD ACTIVE SUB DESCRIPTION'',
       ''ssh.service loaded active running OpenBSD Secure Shell server'', []] [] = []"
    by (simp add: HasPrefix_def Fields_ssh Fields.simps [of "[]"])
  show ?thesis
    using retained_line_record [OF 1 2 3 4 5] by (simp add: 6 del: scan_loop.simps(2))
qed

text \<open>
  C9: a line of the listing that starts with the header token \<open>UNIT\<close> or has fewer than
  three fields adds no record and does not stop the listing. As amended: this holds of
  every line the scanner yields to the loop, which are the lines of the output up to
  the first line of 65536 bytes or more, where the scanner stops. For such a line the
  result is no error, and holds the records of the lines before and of the lines after
  it.
\<close>

theorem skipped_line_no_record:
  assumes "ScanLines output = before @ line # after"
    and "HasPrefix line ''UNIT'' \<or> length (Fields line) < 3"
  shows "GetSystemDServices (output, None) partialName =
           Inr (scan_loop partialName before [] @ scan_loop partialName after [])"
proof -
  have one: "scan_loop partialName [line] [] = []"
    using assms(2) by (auto simp: Let_def)
  have "scan_loop partialName (before @ line # after) [] =
          scan_loop partialName before [] @ scan_loop partialName [line] [] @
          scan_loop partialName after []"
    by (simp add: scan_loop_append scan_loop_line [of partialName line after]
        del: scan_loop.simps)
  then show ?thesis
    using assms(1) one by (simp add: GetSystemDServices_def del: scan_loop.simps)
qed

theorem skipped_line_no_record_witness:
  "GetSystemDServices (listing0, None) ''cron'' =
     Inr (scan_loop ''cron'' [''UNIT LOAD ACTIVE SUB DESCRIPTION'',
            ''ssh.service loaded active running OpenBSD Secure Shell server''] [] @
          scan_loop ''cron'' [''cron.service loaded active''] []) \<and>
   GetSystemDServices (listing0, None) ''cron'' =
     Inr (scan_loop ''cron'' [] [] @
          scan_loop ''cron'' [''ssh.service loaded active running OpenBSD Secure Shell server'',
            [], ''cron.service loaded active''] [])"
proof -
  have 1: "ScanLines listing0 =
      [''UNIT LOAD ACTIVE SUB DESCRIPTION'',
       ''ssh.service loaded active running OpenBSD Secure Shell server''] @
      [] # [''cron.service loaded active'']"
    by (simp add: ScanLines_listing0)
  have 2: "HasPrefix [] ''UNIT'' \<or> length (Fields []) < 3"
    by (simp add: Fields.simps [of "[]"])
  have 3: "ScanLines listing0 =
      [] @ ''UNIT LOAD ACTIVE SUB DESCRIPTION'' #
       [''ssh.service loaded active running OpenBSD Secure Shell server'', [],
        ''cron.service loaded active'']"
    by (simp add: ScanLines_listing0)
  have 4: "HasPrefix ''UNIT LOAD ACTIVE SUB DESCRIPTION'' ''UNIT'' \<or>
           length (Fields ''UNIT LOAD ACTIVE SUB DESCRIPTION'') < 3"
    by (simp add: HasPrefix_def)
  show ?thesis
    using skipped_line_no_record [OF 1 2, of "''cron''"]
      skipped_line_no_record [OF 3 4, of "''cron''"]
    by (simp del: scan_loop.simps)
qed

text \<open>
  C9 as stated fails on a header line of 65536 bytes: the scanner stops at it, the
  loop ends, and the record of the line after it, which the listing of that line alone
  holds, is lost.
\<close>

theorem long_line_ends_listing:
  "HasPrefix long_header ''UNIT'' \<and>
   GetSystemDServices (long_header @ ''\<newline>cron.service loaded active\<newline>'', None) [] =
     Inr [] \<and>
   GetSystemDServices (''cron.service loaded active\<newline>'', None) [] =
     Inr [\<lparr>Name = ''cron.service'', Unit = ''loaded'', ActiveState = ''active'',
           SubState = [], LoadState = [],
           Path = ''/etc/systemd/system/cron.service.service''\<rparr>]"
proof -
  have 1: "HasPrefix long_header ''UNIT''"
    by (simp add: long_header_def HasPrefix_def)
  have "CHR 0x0A \<notin> set long_header"
    by (simp add: long_header_def)
  moreover have "MaxScanTokenSize \<le> length long_header"
    by (simp add: long_header_def MaxScanTokenSize_def)
  ultimately have "ScanLines (long_header @ CHR 0x0A # ''cron.service loaded active\<newline>'') = []"
    by (rule ScanLines_too_long)
  then have 2: "GetSystemDServices
      (long_header @ ''\<newline>cron.service loaded active\<newline>'', None) [] = Inr []"
    by (simp add: GetSystemDServices_def)
  have "ScanLines ''cron.service loaded active\<newline>'' = [''cron.service loaded active'']"
    by (simp add: ScanLines_def dropCR_def MaxScanTokenSize_def)
  then have 3: "GetSystemDServices (''cron.service loaded active\<newline>'', None) [] =
     Inr [\<lparr>Name = ''cron.service'', Unit = ''loaded'', ActiveState = ''active'',
           SubState = [], LoadState = [],
           Path = ''/etc/systemd/system/cron.service.service''\<rparr>]"
    by (simp add: GetSystemDServices_def HasPrefix_def Fields_cron)
  from 1 2 3 show ?thesis by simp
qed

text \<open>
  C10: when the home directory resolves to \<open><home>\<close>, building for pocketbase, \<open>~/pb\<close> and
  \<open>pocketbase serve x.com\<close> gives the command \<open><home>/pb/pocketbase serve x.com\<close>,
  path-joined, and sends both outputs to \<open>append:<home>/pb/logs/service.log\<close>. As
  amended: for every absolute \<open><home>\<close> the paths are the joins of \<open><home>\<close>, \<open>pb\<close> and
  the rest; for an absolute \<open><home>\<close> in normal form and not the root, the joins are
  these very texts. Both packages build the same service section.
\<close>

theorem home_expansion_example:
  assumes "env_HOME env = home" and "IsAbs home"
  shows "(ExecStart (cfg_Service (NewServiceConfig env ''pocketbase'' ''~/pb''
             ''pocketbase serve x.com'' opts)) =
            Join [home, ''pb'', ''pocketbase serve x.com''] \<and>
          StandardOutput (cfg_Service (NewServiceConfig env ''pocketbase'' ''~/pb''
             ''pocketbase serve x.com'' opts)) =
            ''append:'' @ Join [home, ''pb'', ''logs'', ''service.log''] \<and>
          StandardError (cfg_Service (NewServiceConfig env ''pocketbase'' ''~/pb''
             ''pocketbase serve x.com'' opts)) =
            ''append:'' @ Join [home, ''pb'', ''logs'', ''service.log'']) \<and>
         (Clean home = home \<and> home \<noteq> ''/'' \<longrightarrow>
          ExecStart (cfg_Service (NewServiceConfig env ''pocketbase'' ''~/pb''
             ''pocketbase serve x.com'' opts)) = home @ ''/pb/pocketbase serve x.com'' \<and>
          StandardOutput (cfg_Service (NewServiceConfig env ''pocketbase'' ''~/pb''
             ''pocketbase serve x.com'' opts)) = ''append:'' @ home @ ''/pb/logs/service.log'' \<and>
          StandardError (cfg_Service (NewServiceConfig env ''pocketbase'' ''~/pb''
             ''pocketbase serve x.com'' opts)) = ''append:'' @ home @ ''/pb/logs/service.log'') \<and>
         sd_SystemdService (NewSystemdServiceConfig env ''pocketbase'' ''~/pb''
            ''pocketbase serve x.com'' opts) =
           cfg_Service (NewServiceConfig env ''pocketbase'' ''~/pb''
            ''pocketbase serve x.com'' opts)"
proof -
  note joined = example_paths_joined [OF assms]
  have general:
    "ExecStart (cfg_Service (NewServiceConfig env ''pocketbase'' ''~/pb''
        ''pocketbase serve x.com'' opts)) =
       Join [home, ''pb'', ''pocketbase serve x.com'']"
    "StandardOutput (cfg_Service (NewServiceConfig env ''pocketbase'' ''~/pb''
        ''pocketbase serve x.com'' opts)) =
       ''append:'' @ Join [home, ''pb'', ''logs'', ''service.log'']"
    "StandardError (cfg_Service (NewServiceConfig env ''pocketbase'' ''~/pb''
        ''pocketbase serve x.com'' opts)) =
       ''append:'' @ Join [home, ''pb'', ''logs'', ''service.log'']"
    by (simp_all add: NewServiceConfig_def Let_def joined)
  have same: "sd_SystemdService (NewSystemdServiceConfig env ''pocketbase'' ''~/pb''
        ''pocketbase serve x.com'' opts) =
      cfg_Service (NewServiceConfig env ''pocketbase'' ''~/pb''
        ''pocketbase serve x.com'' opts)"
    by (simp add: NewServiceConfig_def NewSystemdServiceConfig_def Let_def)
  have literal:
    "Join [home, ''pb'', ''pocketbase serve x.com''] = home @ ''/pb/pocketbase serve x.com'' \<and>
     Join [home, ''pb'', ''logs'', ''service.log''] = home @ ''/pb/logs/service.log''"
    if "Clean home = home" and "home \<noteq> ''/''"
  proof -
    from assms(2) that have home: "normal_dir home" by (simp add: normal_dir_def)
    note base = resolve_home_pb [OF assms(1) home]
    note paths = home_pb_paths [OF base(2)]
    from joined show ?thesis by (simp add: base(1) paths)
  qed
  from general same literal show ?thesis by simp
qed

theorem home_expansion_example_witness:
  "ExecStart (cfg_Service (NewServiceConfig env0 ''pocketbase'' ''~/pb''
      ''pocketbase serve x.com'' None)) = ''/root/pb/pocketbase serve x.com'' \<and>
   StandardOutput (cfg_Service (NewServiceConfig env0 ''pocketbase'' ''~/pb''
      ''pocketbase serve x.com'' None)) = ''append:/root/pb/logs/service.log'' \<and>
   StandardError (cfg_Service (NewServiceConfig env0 ''pocketbase'' ''~/pb''
      ''pocketbase serve x.com'' None)) = ''append:/root/pb/logs/service.log''"
proof -
  have 1: "env_HOME env0 = ''/root''" by (simp add: env0_def)
  have 2: "IsAbs ''/root''" by (simp add: IsAbs_def HasPrefix_def)
  have 3: "Clean ''/root'' = ''/root'' \<and> ''/root'' \<noteq> ''/''" by (simp add: Clean_root_home)
  from home_expansion_example [OF 1 2, of None, THEN conjunct2, THEN conjunct1, THEN mp, OF 3]
  show ?thesis by simp
qed

text \<open>
  C10 as stated fails where the home directory is the root, and where it is a relative
  path: the join drops the doubled slash, and \<open>filepath.Abs\<close> puts the working directory
  in front.
\<close>

theorem home_not_normal:
  "ExecStart (cfg_Service (NewServiceConfig env_root_home ''pocketbase'' ''~/pb''
      ''pocketbase serve x.com'' None)) = ''/pb/pocketbase serve x.com'' \<and>
   ExecStart (cfg_Service (NewServiceConfig env_root_home ''pocketbase'' ''~/pb''
      ''pocketbase serve x.com'' None)) \<noteq> env_HOME env_root_home @ ''/pb/pocketbase serve x.com'' \<and>
   ExecStart (cfg_Service (NewServiceConfig env_relative_home ''pocketbase'' ''~/pb''
      ''pocketbase serve x.com'' None)) = ''/srv/app/home/u/pb/pocketbase serve x.com'' \<and>
   ExecStart (cfg_Service (NewServiceConfig env_relative_home ''pocketbase'' ''~/pb''
      ''pocketbase serve x.com'' None)) \<noteq>
     env_HOME env_relative_home @ ''/pb/pocketbase serve x.com''"
  by (simp add: NewServiceConfig_def Let_def resolve_baseDir_def HasPrefix_def
      UserHomeDir_def Abs_def IsAbs_def env_root_home_def env_relative_home_def
      Join_def Clean_def clean_elem_def)

end
